theory Spec2Isabelle
  imports Main "HOL-Library.Word" "HOL-Library.Signed_Division" "HOL-Library.AList"
begin

section \<open>The token-bucket rate limiter (ratelimiter.go)\<close>

text \<open>
  Go's \<open>int\<close> is taken at its width on 64-bit platforms, and \<open>time.Duration\<close> is an
  \<open>int64\<close> count of nanoseconds: both are 64-bit words, read as two's complement with
  \<open>sint\<close>; \<open>+\<close> and \<open>-\<close> wrap around as Go's do.

  A \<open>time.Time\<close> obtained from \<open>time.Now()\<close> carries a reading of the monotonic clock
  (an \<open>int64\<close> count of nanoseconds since the process started, at least 1), and
  \<open>Time.Sub\<close> on two such values subtracts the readings. \<open>Time\<close> is that reading.
\<close>

type_synonym int64 = "64 word"
type_synonym Duration = int64
type_synonym Time = int64

definition maxDuration :: Duration where
  "maxDuration = 9223372036854775807"

definition minDuration :: Duration where
  "minDuration = - 9223372036854775808"

text \<open>
  Go's integer division \<open>a / b\<close> for \<open>b \<noteq> 0\<close>: the quotient truncated towards zero, and
  wrapped to 64 bits (so the most negative value divided by \<open>-1\<close> is itself). The caller
  checks \<open>b = 0\<close>, where Go panics.
\<close>

definition quo :: "int64 \<Rightarrow> int64 \<Rightarrow> int64" where
  "quo a b = word_of_int (sint a sdiv sint b)"

text \<open>
  \<open>t.Sub(u)\<close> of the standard library on monotonic readings: the difference, saturated at
  the largest and smallest \<open>Duration\<close> when it does not fit.
\<close>

definition Sub :: "Time \<Rightarrow> Time \<Rightarrow> Duration" where
  "Sub t u =
     (let d = t - u in
      if sint d < 0 \<and> sint u < sint t then maxDuration
      else if 0 < sint d \<and> sint t < sint u then minDuration
      else d)"

text \<open>
  The struct \<open>RateLimiter\<close>. The fields \<open>max\<close> and \<open>last\<close> are \<open>max_rl\<close> and \<open>last_rl\<close>
  here; the mutex \<open>mu\<close> has no counterpart, every call of \<open>Allow\<close> being one step.
\<close>

record RateLimiter =
  tokens :: int64
  max_rl :: int64
  interval :: Duration
  last_rl :: Time

text \<open>The run-time panic of an integer division by zero.\<close>

datatype panic = DivideByZero

text \<open>\<open>NewRateLimiter(max, interval)\<close>; \<open>now\<close> is what \<open>time.Now()\<close> returns.\<close>

definition NewRateLimiter :: "int64 \<Rightarrow> Duration \<Rightarrow> Time \<Rightarrow> RateLimiter" where
  "NewRateLimiter m i now = \<lparr>tokens = m, max_rl = m, interval = i, last_rl = now\<rparr>"

text \<open>
  \<open>rl.Allow()\<close>; \<open>now\<close> is what \<open>time.Now()\<close> returns inside the call. The result is the
  returned boolean, or the panic of \<open>elapsed / rl.interval\<close> when the interval is 0, and
  the limiter as the call leaves it (\<open>rl.last\<close> is assigned before the division).
\<close>

definition Allow :: "RateLimiter \<Rightarrow> Time \<Rightarrow> (panic + bool) \<times> RateLimiter" where
  "Allow rl now =
     (let elapsed = Sub now (last_rl rl);
          rl = rl\<lparr>last_rl := now\<rparr>
      in if interval rl = 0 then (Inl DivideByZero, rl)
         else
           let rl = rl\<lparr>tokens := tokens rl + quo elapsed (interval rl)\<rparr>;
               rl = (if sint (max_rl rl) < sint (tokens rl)
                     then rl\<lparr>tokens := max_rl rl\<rparr> else rl)
           in if 0 < sint (tokens rl) then (Inr True, rl\<lparr>tokens := tokens rl - 1\<rparr>)
              else (Inr False, rl))"

text \<open>
  Successive calls of \<open>Allow\<close> on one limiter, one for each clock reading of the list:
  the outcome of every call with the limiter after it.
\<close>

fun Allow_calls :: "RateLimiter \<Rightarrow> Time list \<Rightarrow> ((panic + bool) \<times> RateLimiter) list" where
  "Allow_calls rl [] = []"
| "Allow_calls rl (t # ts) = Allow rl t # Allow_calls (snd (Allow rl t)) ts"

section \<open>The API client (client.go)\<close>

text \<open>
  Errors are values. \<open>RateLimitExceeded\<close> is the package's exported sentinel; \<open>Errorf\<close>
  is the error \<open>fmt.Errorf\<close> builds from a format and its arguments; \<open>LibError\<close> is
  any other error value, named by its message.
\<close>

datatype error = RateLimitExceeded | LibError string | Errorf string "arg list"
  and arg = AInt int | AStr string | AErr error

text \<open>What a call does: return a value, return an error, or panic.\<close>

datatype 'a result = Ok 'a | Err error | Panic panic

type_synonym http_Client = nat
type_synonym params = "(string \<times> string) list"

record Request =
  Method :: string
  URL :: string
  Header :: "(string \<times> string) list"
  Query :: params

record Response =
  StatusCode :: int
  Body :: "error + string"

type_synonym netlog = "(http_Client \<times> Request) list"

text \<open>The Go types a response body is decoded into.\<close>

datatype target =
  T_GetVolumeResponse | T_map | T_CreateOrderResposnse | T_OrderResponse | T_ResultResponse

text \<open>
  What lies outside the package: \<open>http.DefaultClient\<close>, \<open>http.NewRequest\<close> (its error,
  if any), \<open>(*http.Client).Do\<close> (which may depend on the requests sent before; the
  \<open>Body\<close> of its response is what \<open>io.ReadAll\<close> makes of it) and \<open>json.Unmarshal\<close>
  into a value of type \<open>'j\<close>. A left value is the error returned, which \<open>request\<close>
  hands on as it is; it may be any error value, also the exported sentinel.
\<close>

record 'j World =
  DefaultClient :: http_Client
  http_NewRequest :: "string \<Rightarrow> string \<Rightarrow> error option"
  http_Do :: "netlog \<Rightarrow> http_Client \<Rightarrow> Request \<Rightarrow> error + Response"
  json_Unmarshal :: "target \<Rightarrow> string \<Rightarrow> error + 'j"

record Client =
  baseURL :: string
  apiKey :: string
  client :: http_Client
  rateLimiter :: "RateLimiter option"

text \<open>\<open>New(key)\<close>; \<open>h\<close> is the freshly allocated \<open>&http.Client{}\<close>.\<close>

definition New :: "string \<Rightarrow> http_Client \<Rightarrow> Client" where
  "New key h = \<lparr>baseURL = ''https://exch.cx/api'', apiKey = key, client = h, rateLimiter = None\<rparr>"

text \<open>The setters \<open>(c *Client) Client\<close> and \<open>(c *Client) RateLimiter\<close>.\<close>

definition Client_Client :: "Client \<Rightarrow> http_Client \<Rightarrow> Client" where
  "Client_Client c h = c\<lparr>client := h\<rparr>"

definition Client_RateLimiter :: "Client \<Rightarrow> int64 \<Rightarrow> Duration \<Rightarrow> Time \<Rightarrow> Client" where
  "Client_RateLimiter c m i now = c\<lparr>rateLimiter := Some (NewRateLimiter m i now)\<rparr>"

text \<open>
  The part of \<open>request\<close> after the rate limiting: build the request, send it through
  \<open>http.DefaultClient\<close>, read the body. The log grows by the request handed to \<open>Do\<close>.
\<close>

definition send :: "'j World \<Rightarrow> Client \<Rightarrow> netlog \<Rightarrow> string \<Rightarrow> string \<Rightarrow> params
    \<Rightarrow> (int \<times> string) result \<times> Client \<times> netlog" where
  "send w c log path method ps =
     (let fullURL = baseURL c @ ''/'' @ path in
      case http_NewRequest w method fullURL of
        Some e \<Rightarrow> (Err e, c, log)
      | None \<Rightarrow>
          (let req = \<lparr>Method = method, URL = fullURL,
                      Header = [(''Content-Type'', ''application/json''),
                                (''X-Requested-With'', ''XMLHttpRequest'')],
                      Query = ps\<rparr>;
               log' = log @ [(DefaultClient w, req)]
           in (case http_Do w log (DefaultClient w) req of
                 Inl e \<Rightarrow> (Err e, c, log')
               | Inr res \<Rightarrow>
                   (case Body res of
                      Inl e \<Rightarrow> (Err e, c, log')
                    | Inr body \<Rightarrow> (Ok (StatusCode res, body), c, log')))))"

text \<open>
  \<open>c.request(path, method, params)\<close>: the result, the client and the log of requests
  sent. \<open>now\<close> is the clock reading \<open>Allow\<close> takes, if it is called.
\<close>

definition request :: "'j World \<Rightarrow> Time \<Rightarrow> Client \<Rightarrow> netlog \<Rightarrow> string \<Rightarrow> string \<Rightarrow> params
    \<Rightarrow> (int \<times> string) result \<times> Client \<times> netlog" where
  "request w now c log path method ps =
     (case rateLimiter c of
        Some rl \<Rightarrow>
          (case Allow rl now of
             (Inl p, rl') \<Rightarrow> (Panic p, c\<lparr>rateLimiter := Some rl'\<rparr>, log)
           | (Inr ok, rl') \<Rightarrow>
               if \<not> ok then (Err RateLimitExceeded, c\<lparr>rateLimiter := Some rl'\<rparr>, log)
               else send w (c\<lparr>rateLimiter := Some rl'\<rparr>) log path method ps)
      | None \<Rightarrow> send w c log path method ps)"

section \<open>The API methods (client.go, structs.go)\<close>

type_synonym CryptoCurrency = string

record OrderOptions =
  RefundAddress :: string
  RateMode :: string
  ReferrerID :: string
  FeeOption :: string
  Aggregation :: "bool option"

text \<open>
  Every method takes the world, the clock reading for \<open>Allow\<close>, the client and the log,
  and gives the decoded value or the error, with the client and the log after the call.
\<close>

definition Volume :: "'j World \<Rightarrow> Time \<Rightarrow> Client \<Rightarrow> netlog \<Rightarrow> 'j result \<times> Client \<times> netlog" where
  "Volume w now c log =
     (case request w now c log ''volume'' ''GET'' [] of
        (Panic p, c', log') \<Rightarrow> (Panic p, c', log')
      | (Err err, c', log') \<Rightarrow> (Err err, c', log')
      | (Ok (statusCode, body), c', log') \<Rightarrow>
          if statusCode \<noteq> 200
          then (Err (Errorf ''error: received status code %d'' [AInt statusCode]), c', log')
          else (case json_Unmarshal w T_GetVolumeResponse body of
                  Inl e \<Rightarrow> (Err e, c', log')
                | Inr res \<Rightarrow> (Ok res, c', log')))"

definition Status :: "'j World \<Rightarrow> Time \<Rightarrow> Client \<Rightarrow> netlog \<Rightarrow> 'j result \<times> Client \<times> netlog" where
  "Status w now c log =
     (case request w now c log ''status'' ''GET'' [] of
        (Panic p, c', log') \<Rightarrow> (Panic p, c', log')
      | (Err err, c', log') \<Rightarrow> (Err err, c', log')
      | (Ok (statusCode, body), c', log') \<Rightarrow>
          if statusCode \<noteq> 200
          then (Err (Errorf ''error: received status code %d'' [AInt statusCode]), c', log')
          else (case json_Unmarshal w T_map body of
                  Inl e \<Rightarrow> (Err e, c', log')
                | Inr res \<Rightarrow> (Ok res, c', log')))"

text \<open>The query parameters of \<open>Order\<close>: the required ones, and the options that are set.\<close>

definition Order_params :: "CryptoCurrency \<Rightarrow> CryptoCurrency \<Rightarrow> string \<Rightarrow> OrderOptions option
    \<Rightarrow> params" where
  "Order_params from to address opts =
     (let ps = [(''from_currency'', from), (''to_currency'', to), (''to_address'', address)]
      in case opts of
           None \<Rightarrow> ps
         | Some opt \<Rightarrow>
             (let ps = (if RefundAddress opt \<noteq> ''''
                        then AList.update ''refund_address'' (RefundAddress opt) ps else ps);
                  ps = (if RateMode opt \<noteq> ''''
                        then AList.update ''rate_mode'' (RateMode opt) ps else ps);
                  ps = (if ReferrerID opt \<noteq> ''''
                        then AList.update ''ref'' (ReferrerID opt) ps else ps);
                  ps = (if FeeOption opt \<noteq> ''''
                        then AList.update ''fee_option'' (FeeOption opt) ps else ps);
                  ps = (case Aggregation opt of
                          None \<Rightarrow> ps
                        | Some b \<Rightarrow> AList.update ''aggregation'' (if b then ''yes'' else ''no'') ps)
              in ps))"

definition Order :: "'j World \<Rightarrow> Time \<Rightarrow> Client \<Rightarrow> netlog \<Rightarrow> CryptoCurrency \<Rightarrow> CryptoCurrency
    \<Rightarrow> string \<Rightarrow> OrderOptions option \<Rightarrow> 'j result \<times> Client \<times> netlog" where
  "Order w now c log from to address opts =
     (if from = '''' \<or> to = '''' \<or> address = ''''
      then (Err (Errorf ''from, to, and address are required'' []), c, log)
      else
        (case request w now c log ''create'' ''GET'' (Order_params from to address opts) of
           (Panic p, c', log') \<Rightarrow> (Panic p, c', log')
         | (Err err, c', log') \<Rightarrow> (Err (Errorf ''request error: %v'' [AErr err]), c', log')
         | (Ok (statusCode, body), c', log') \<Rightarrow>
             if statusCode \<noteq> 200
             then (Err (Errorf ''error: status %d, response: %s'' [AInt statusCode, AStr body]),
                   c', log')
             else (case json_Unmarshal w T_CreateOrderResposnse body of
                     Inl e \<Rightarrow> (Err (Errorf ''unmarshal error: %v'' [AErr e]), c', log')
                   | Inr res \<Rightarrow> (Ok res, c', log'))))"

definition GetOrder :: "'j World \<Rightarrow> Time \<Rightarrow> Client \<Rightarrow> netlog \<Rightarrow> string
    \<Rightarrow> 'j result \<times> Client \<times> netlog" where
  "GetOrder w now c log id' =
     (if id' = ''''
      then (Err (Errorf ''id is required'' []), c, log)
      else
        (case request w now c log ''order'' ''GET'' [(''orderid'', id')] of
           (Panic p, c', log') \<Rightarrow> (Panic p, c', log')
         | (Err err, c', log') \<Rightarrow> (Err (Errorf ''request error: %v'' [AErr err]), c', log')
         | (Ok (statusCode, body), c', log') \<Rightarrow>
             if statusCode \<noteq> 200
             then (Err (Errorf ''error: status %d, response: %s'' [AInt statusCode, AStr body]),
                   c', log')
             else (case json_Unmarshal w T_OrderResponse body of
                     Inl e \<Rightarrow> (Err (Errorf ''unmarshal error: %v'' [AErr e]), c', log')
                   | Inr res \<Rightarrow> (Ok res, c', log'))))"

definition Refund :: "'j World \<Rightarrow> Time \<Rightarrow> Client \<Rightarrow> netlog \<Rightarrow> string
    \<Rightarrow> 'j result \<times> Client \<times> netlog" where
  "Refund w now c log id' =
     (if id' = ''''
      then (Err (Errorf ''id is required'' []), c, log)
      else
        (case request w now c log ''order/refund'' ''GET'' [(''orderid'', id')] of
           (Panic p, c', log') \<Rightarrow> (Panic p, c', log')
         | (Err err, c', log') \<Rightarrow> (Err (Errorf ''request error: %v'' [AErr err]), c', log')
         | (Ok (statusCode, body), c', log') \<Rightarrow>
             if statusCode \<noteq> 200
             then (Err (Errorf ''error: status %d, response: %s'' [AInt statusCode, AStr body]),
                   c', log')
             else (case json_Unmarshal w T_ResultResponse body of
                     Inl e \<Rightarrow> (Err (Errorf ''unmarshal error: %v'' [AErr e]), c', log')
                   | Inr res \<Rightarrow> (Ok res, c', log'))))"

definition ConfirmRefund :: "'j World \<Rightarrow> Time \<Rightarrow> Client \<Rightarrow> netlog \<Rightarrow> string
    \<Rightarrow> 'j result \<times> Client \<times> netlog" where
  "ConfirmRefund w now c log id' =
     (if id' = ''''
      then (Err (Errorf ''id is required'' []), c, log)
      else
        (case request w now c log ''order/refund_confirm'' ''GET'' [(''orderid'', id')] of
           (Panic p, c', log') \<Rightarrow> (Panic p, c', log')
         | (Err err, c', log') \<Rightarrow> (Err (Errorf ''request error: %v'' [AErr err]), c', log')
         | (Ok (statusCode, body), c', log') \<Rightarrow>
             if statusCode \<noteq> 200
             then (Err (Errorf ''error: status %d, response: %s'' [AInt statusCode, AStr body]),
                   c', log')
             else (case json_Unmarshal w T_ResultResponse body of
                     Inl e \<Rightarrow> (Err (Errorf ''unmarshal error: %v'' [AErr e]), c', log')
                   | Inr res \<Rightarrow> (Ok res, c', log'))))"

definition RevalidateAddress :: "'j World \<Rightarrow> Time \<Rightarrow> Client \<Rightarrow> netlog \<Rightarrow> string \<Rightarrow> string
    \<Rightarrow> 'j result \<times> Client \<times> netlog" where
  "RevalidateAddress w now c log id' address =
     (if id' = '''' \<or> address = ''''
      then (Err (Errorf ''id and address are required'' []), c, log)
      else
        (case request w now c log ''order/revalidate_address'' ''GET''
                [(''orderid'', id'), (''to_address'', address)] of
           (Panic p, c', log') \<Rightarrow> (Panic p, c', log')
         | (Err err, c', log') \<Rightarrow> (Err (Errorf ''error making request: %v'' [AErr err]), c', log')
         | (Ok (statusCode, body), c', log') \<Rightarrow>
             if statusCode \<noteq> 200
             then (Err (Errorf ''error: received status code %d, response: %s''
                         [AInt statusCode, AStr body]), c', log')
             else (case json_Unmarshal w T_ResultResponse body of
                     Inl e \<Rightarrow> (Err (Errorf ''error unmarshaling response: %v'' [AErr e]),
                               c', log')
                   | Inr res \<Rightarrow> (Ok res, c', log'))))"

definition Remove :: "'j World \<Rightarrow> Time \<Rightarrow> Client \<Rightarrow> netlog \<Rightarrow> string
    \<Rightarrow> 'j result \<times> Client \<times> netlog" where
  "Remove w now c log id' =
     (if id' = ''''
      then (Err (Errorf ''order id is empty'' []), c, log)
      else
        (case request w now c log ''order/remove'' ''GET'' [(''orderid'', id')] of
           (Panic p, c', log') \<Rightarrow> (Panic p, c', log')
         | (Err err, c', log') \<Rightarrow> (Err (Errorf ''error making request: %v'' [AErr err]), c', log')
         | (Ok (statusCode, body), c', log') \<Rightarrow>
             if statusCode \<noteq> 200
             then (Err (Errorf ''error: received status code %d, response: %s''
                         [AInt statusCode, AStr body]), c', log')
             else (case json_Unmarshal w T_ResultResponse body of
                     Inl e \<Rightarrow> (Err (Errorf ''error unmarshaling response: %v'' [AErr e]),
                               c', log')
                   | Inr res \<Rightarrow> (Ok res, c', log'))))"

section \<open>Values for the examples\<close>

text \<open>
  A world in which every request is well-formed and answered with status 200 and the
  body \<open>{}\<close>, which decodes; a world in which reading the body of every response
  fails with the error value \<open>RateLimitExceeded\<close>; and a client whose limiter has no
  token left at clock reading 5.
\<close>

definition answer_200 :: "unit World" where
  "answer_200 = \<lparr>DefaultClient = 0, http_NewRequest = (\<lambda>m u. None),
      http_Do = (\<lambda>l h r. Inr \<lparr>StatusCode = 200, Body = Inr ''{}''\<rparr>),
      json_Unmarshal = (\<lambda>t b. Inr ())\<rparr>"

definition sentinel_body :: "unit World" where
  "sentinel_body = \<lparr>DefaultClient = 0, http_NewRequest = (\<lambda>m u. None),
      http_Do = (\<lambda>l h r. Inr \<lparr>StatusCode = 200, Body = Inl RateLimitExceeded\<rparr>),
      json_Unmarshal = (\<lambda>t b. Inr ())\<rparr>"

definition exhausted_client :: Client where
  "exhausted_client =
     (New ''k'' 1)\<lparr>rateLimiter :=
        Some \<lparr>tokens = 0, max_rl = 1, interval = 1000000000, last_rl = 5\<rparr>\<rparr>"

section \<open>Properties of the rate limiter\<close>

subsection \<open>Arithmetic of 64-bit values\<close>

lemma sint_int64_range: "- (2^63) \<le> sint (w::int64)" "sint (w::int64) < 2^63"
  using sint_ge [of w] sint_lt [of w] by simp_all

lemma sint_word_of_int_64:
  "- (2^63) \<le> k \<Longrightarrow> k < 2^63 \<Longrightarrow> sint (word_of_int k :: int64) = k"
  by (simp add: sint_sbintrunc' signed_take_bit_int_eq_self)

lemma Sub_same: "Sub t t = 0"
  by (simp add: Sub_def)

lemma sint_minus64: "sint ((t::int64) - u) = signed_take_bit 63 (sint t - sint u)"
  by (simp add: sint_word_ariths)

lemma sint_plus64: "sint ((t::int64) + u) = signed_take_bit 63 (sint t + sint u)"
  by (simp add: sint_word_ariths)

lemma sint_plus64_exact:
  "- (2^63) \<le> sint (a::int64) + sint b \<Longrightarrow> sint a + sint b < 2^63 \<Longrightarrow> sint (a + b) = sint a + sint b"
  by (simp add: sint_plus64 signed_take_bit_int_eq_self)

lemma sint_pred64: "0 < sint (a::int64) \<Longrightarrow> sint (a - 1) = sint a - 1"
  using sint_int64_range [of a] by (simp add: sint_minus64 signed_take_bit_int_eq_self)

lemma sint_Sub_exact:
  assumes "sint u \<le> sint t" "sint t - sint u < 2^63"
  shows "sint (Sub t u) = sint t - sint u"
proof -
  have d: "sint (t - u) = sint t - sint u"
    using assms by (simp add: sint_minus64 signed_take_bit_int_eq_self)
  show ?thesis using assms d by (simp add: Sub_def Let_def)
qed

lemma Sub_saturated:
  assumes "sint u \<le> sint t" "2^63 \<le> sint t - sint u"
  shows "Sub t u = maxDuration"
proof -
  have "(2::int) ^ 64 = 2 ^ 63 + 2 ^ 63" by simp
  then have r: "sint t - sint u < 2 ^ 64"
    using sint_int64_range [of t] sint_int64_range [of u] by linarith
  have "sint (t - u) \<le> sint t - sint u - 2 ^ Suc 63"
    unfolding sint_minus64 using assms(2) by (rule signed_take_bit_int_less_eq)
  then have "sint (t - u) < 0" using r by simp
  moreover have "sint u < sint t"
  proof -
    have "(0::int) < 2 ^ 63" by simp
    then show ?thesis using assms(2) by linarith
  qed
  ultimately show ?thesis by (simp add: Sub_def Let_def)
qed

lemma sint_Sub_bounds:
  assumes "sint u \<le> sint t"
  shows "0 \<le> sint (Sub t u)" "sint (Sub t u) \<le> sint t - sint u"
proof -
  consider "sint t - sint u < 2^63" | "2^63 \<le> sint t - sint u" by linarith
  then have "0 \<le> sint (Sub t u) \<and> sint (Sub t u) \<le> sint t - sint u"
  proof cases
    case 1
    then show ?thesis using assms by (simp add: sint_Sub_exact)
  next
    case 2
    then show ?thesis using assms by (simp add: Sub_saturated maxDuration_def)
  qed
  then show "0 \<le> sint (Sub t u)" "sint (Sub t u) \<le> sint t - sint u" by simp_all
qed

lemma sint_quo_nonneg:
  assumes "0 \<le> sint a" "0 < sint b"
  shows "sint (quo a b) = sint a div sint b"
proof -
  have s: "sint a sdiv sint b = sint a div sint b"
    using assms by (simp add: signed_divide_int_def sgn_if)
  have "0 \<le> sint a div sint b" using assms by (simp add: pos_imp_zdiv_nonneg_iff)
  moreover have "sint a div sint b \<le> sint a"
    using zdiv_mono2 [of "sint a" 1 "sint b"] assms by simp
  ultimately show ?thesis
    using sint_int64_range [of a] by (simp add: quo_def s sint_word_of_int_64)
qed

lemma Allow_same_time:
  assumes "last_rl rl = now" "interval rl \<noteq> 0" "sint (tokens rl) \<le> sint (max_rl rl)"
  shows "Allow rl now =
    (Inr (0 < sint (tokens rl)),
     if 0 < sint (tokens rl) then rl\<lparr>tokens := tokens rl - 1\<rparr> else rl)"
  using assms by (simp add: Allow_def Sub_same quo_def Let_def)

lemma Allow_calls_same_time:
  assumes "last_rl rl = t" "interval rl \<noteq> 0" "sint (tokens rl) \<le> sint (max_rl rl)"
    and "sint (tokens rl) = int n"
  shows "map fst (Allow_calls rl (replicate (Suc n) t)) = replicate n (Inr True) @ [Inr False]"
  using assms
proof (induction n arbitrary: rl)
  case 0
  then show ?case by (simp add: Allow_same_time)
next
  case (Suc n)
  let ?rl = "rl\<lparr>tokens := tokens rl - 1\<rparr>"
  have pos: "0 < sint (tokens rl)" using Suc.prems(4) by simp
  have step: "Allow rl t = (Inr True, ?rl)"
    using Suc.prems pos by (simp add: Allow_same_time)
  have dec: "sint (tokens ?rl) = int n"
    using pos Suc.prems(4) by (simp add: sint_pred64)
  have "map fst (Allow_calls ?rl (replicate (Suc n) t)) = replicate n (Inr True) @ [Inr False]"
    using Suc.prems dec by (intro Suc.IH) simp_all
  then show ?case using step by simp
qed

lemma Allow_last: "last_rl (snd (Allow rl now)) = now"
  by (simp add: Allow_def Let_def)

lemma Allow_max: "max_rl (snd (Allow rl now)) = max_rl rl"
  by (simp add: Allow_def Let_def)

lemma Allow_interval: "interval (snd (Allow rl now)) = interval rl"
  by (simp add: Allow_def Let_def)

lemma Allow_refill:
  assumes "0 < sint (interval rl)" "0 \<le> sint (Sub now (last_rl rl))"
    and "sint (tokens rl) + sint (Sub now (last_rl rl)) div sint (interval rl) < 2^63"
  shows "fst (Allow rl now) =
           Inr (0 < min (sint (max_rl rl))
                        (sint (tokens rl) + sint (Sub now (last_rl rl)) div sint (interval rl)))"
    and "sint (tokens (snd (Allow rl now))) =
           (let T = min (sint (max_rl rl))
                        (sint (tokens rl) + sint (Sub now (last_rl rl)) div sint (interval rl))
            in if 0 < T then T - 1 else T)"
proof -
  let ?e = "Sub now (last_rl rl)"
  let ?g = "sint ?e div sint (interval rl)"
  have g: "sint (quo ?e (interval rl)) = ?g" using assms by (simp add: sint_quo_nonneg)
  have g0: "0 \<le> ?g" using assms by (simp add: pos_imp_zdiv_nonneg_iff)
  have sum: "sint (tokens rl + quo ?e (interval rl)) = sint (tokens rl) + ?g"
    using assms(3) g0 sint_int64_range [of "tokens rl"] by (simp add: sint_plus64_exact g)
  have nz: "interval rl \<noteq> 0" using assms(1) by auto
  show "fst (Allow rl now) = Inr (0 < min (sint (max_rl rl)) (sint (tokens rl) + ?g))"
    using nz sum by (simp add: Allow_def Let_def min_def)
  show "sint (tokens (snd (Allow rl now))) =
           (let T = min (sint (max_rl rl)) (sint (tokens rl) + ?g) in if 0 < T then T - 1 else T)"
    using nz sum by (simp add: Allow_def Let_def min_def sint_pred64)
qed

lemma Allow_tokens_le_max:
  assumes "interval rl \<noteq> 0"
  shows "sint (tokens (snd (Allow rl now))) \<le> sint (max_rl rl)"
  using assms by (simp add: Allow_def Let_def sint_pred64)

lemma Allow_calls_last: "map (\<lambda>x. last_rl (snd x)) (Allow_calls rl ts) = ts"
  by (induction ts arbitrary: rl) (simp_all add: Allow_last)

text \<open>
  Where the refill addition cannot overflow, a call keeps \<open>0 \<le> tokens \<le> max\<close>.
\<close>

lemma Allow_keeps_bounds:
  assumes "0 \<le> sint (tokens rl)" "sint (tokens rl) \<le> sint (max_rl rl)"
    and "0 < sint (interval rl)" "sint (last_rl rl) \<le> sint now"
    and "sint (max_rl rl) + sint (Sub now (last_rl rl)) div sint (interval rl) < 2 ^ 63"
  shows "0 \<le> sint (tokens (snd (Allow rl now)))"
    and "sint (tokens (snd (Allow rl now))) \<le> sint (max_rl rl)"
proof -
  have h2: "0 \<le> sint (Sub now (last_rl rl))" using assms(4) by (rule sint_Sub_bounds)
  have h3: "sint (tokens rl) + sint (Sub now (last_rl rl)) div sint (interval rl) < 2 ^ 63"
    using assms(2,5) by linarith
  have g0: "0 \<le> sint (Sub now (last_rl rl)) div sint (interval rl)"
    using h2 assms(3) by (simp add: pos_imp_zdiv_nonneg_iff)
  show "0 \<le> sint (tokens (snd (Allow rl now)))"
    using Allow_refill(2) [OF assms(3) h2 h3] assms(1,2) g0 by (simp add: Let_def min_def)
  show "sint (tokens (snd (Allow rl now))) \<le> sint (max_rl rl)"
    using assms(3) by (intro Allow_tokens_le_max) auto
qed

subsection \<open>Construction\<close>

text \<open>
  Claim C1, as amended. \<open>NewRateLimiter\<close> checks nothing and has no error result: for
  every \<open>max\<close> and \<open>interval\<close>, also \<open>max < 1\<close> or \<open>interval \<le> 0\<close>, it returns a limiter
  with \<open>tokens = max\<close>, the given \<open>max\<close> and \<open>interval\<close>, and \<open>last\<close> the current clock
  reading, and the setter \<open>RateLimiter\<close> of the client installs that limiter.
\<close>

theorem C1_construction_never_fails:
  "NewRateLimiter m i now = \<lparr>tokens = m, max_rl = m, interval = i, last_rl = now\<rparr>
   \<and> rateLimiter (Client_RateLimiter c m i now) = Some (NewRateLimiter m i now)"
  by (simp add: NewRateLimiter_def Client_RateLimiter_def)

text \<open>
  Claim C1, as stated, fails: with capacity 0 and refill interval -5 the construction is
  not rejected, and the client holds the limiter that was made.
\<close>

theorem C1_counterexample:
  "sint (0 :: int64) < 1 \<and> sint (- 5 :: int64) \<le> 0
   \<and> rateLimiter (Client_RateLimiter (New ''key'' 1) 0 (- 5) 7)
       = Some \<lparr>tokens = 0, max_rl = 0, interval = - 5, last_rl = 7\<rparr>"
  by (simp add: NewRateLimiter_def Client_RateLimiter_def New_def)

subsection \<open>Admission\<close>

text \<open>
  Claim C2. A limiter freshly constructed with capacity \<open>C \<ge> 1\<close> and refill interval
  \<open>I > 0\<close> admits \<open>C\<close> calls made with no time elapsed since the construction and
  denies the next one.
\<close>

theorem C2_capacity_bound:
  assumes "1 \<le> sint C" "0 < sint I"
  shows "map fst (Allow_calls (NewRateLimiter C I t0) (replicate (Suc (nat (sint C))) t0))
           = replicate (nat (sint C)) (Inr True) @ [Inr False]"
proof -
  have "interval (NewRateLimiter C I t0) \<noteq> 0" using assms(2) by (auto simp: NewRateLimiter_def)
  moreover have "sint (tokens (NewRateLimiter C I t0)) = int (nat (sint C))"
    using assms(1) by (simp add: NewRateLimiter_def)
  ultimately show ?thesis
    by (intro Allow_calls_same_time) (simp_all add: NewRateLimiter_def)
qed

theorem C2_capacity_bound_witness:
  "1 \<le> sint (3 :: int64) \<and> 0 < sint (1000 :: int64)
   \<and> map fst (Allow_calls (NewRateLimiter 3 1000 7) [7, 7, 7, 7])
       = [Inr True, Inr True, Inr True, Inr False]"
  using C2_capacity_bound [of 3 1000 7] by (simp add: numeral_eq_Suc)

text \<open>
  Claim C3. From an exhausted bucket (\<open>tokens = 0\<close>), after an idle time of \<open>k\<close> whole
  refill intervals and a remainder \<open>r\<close> shorter than one interval, exactly \<open>min C k\<close>
  immediate calls are admitted and the next one is denied: the remainder generates
  nothing. The clock readings are those of the monotonic clock, which are not negative.
\<close>

theorem C3_refill:
  assumes "tokens rl = 0" "0 < sint (interval rl)" "0 \<le> sint (last_rl rl)"
    and "0 \<le> k" "0 \<le> r" "r < sint (interval rl)"
    and "sint now = sint (last_rl rl) + k * sint (interval rl) + r"
  shows "map fst (Allow_calls rl (replicate (Suc (nat (min (sint (max_rl rl)) k))) now))
           = replicate (nat (min (sint (max_rl rl)) k)) (Inr True) @ [Inr False]"
proof -
  let ?I = "sint (interval rl)"
  let ?rl = "snd (Allow rl now)"
  define T where "T = min (sint (max_rl rl)) k"
  have e: "sint now - sint (last_rl rl) = k * ?I + r" using assms(7) by simp
  have lt: "sint now - sint (last_rl rl) < 2 ^ 63"
    using sint_int64_range(2) [of now] assms(3) by linarith
  have kI: "0 \<le> k * ?I" using assms(2,4) by simp
  have le: "sint (last_rl rl) \<le> sint now" using e kI assms(5) by linarith
  have sub: "sint (Sub now (last_rl rl)) = k * ?I + r"
    using le lt e by (simp add: sint_Sub_exact)
  have dv: "(k * ?I + r) div ?I = k"
    using assms(2,5,6) by simp
  have "k * 1 \<le> k * ?I" using assms(2,4) by (intro mult_left_mono) simp_all
  then have k: "k < 2 ^ 63" using lt e assms(5) by simp
  have h2: "0 \<le> sint (Sub now (last_rl rl))" using le by (rule sint_Sub_bounds)
  have h3: "sint (tokens rl) + sint (Sub now (last_rl rl)) div ?I < 2 ^ 63"
    using k by (simp add: assms(1) sub dv)
  have res: "fst (Allow rl now) = Inr (0 < T)"
    using Allow_refill(1) [OF assms(2) h2 h3] by (simp add: assms(1) sub dv T_def)
  have tok: "sint (tokens ?rl) = (if 0 < T then T - 1 else T)"
    using Allow_refill(2) [OF assms(2) h2 h3] by (simp add: assms(1) sub dv Let_def T_def)
  have "map fst (Allow_calls rl (replicate (Suc (nat T)) now))
           = replicate (nat T) (Inr True) @ [Inr False]"
  proof (cases "0 < T")
    case False
    then show ?thesis using res by simp
  next
    case True
    then obtain n where n: "nat T = Suc n" by (cases "nat T") auto
    have nz: "interval rl \<noteq> 0" using assms(2) by auto
    have "sint (tokens ?rl) = int n" using tok True n by simp
    moreover have "sint (tokens ?rl) \<le> sint (max_rl ?rl)"
      using nz by (simp add: Allow_tokens_le_max Allow_max)
    ultimately have "map fst (Allow_calls ?rl (replicate (Suc n) now))
        = replicate n (Inr True) @ [Inr False]"
      using nz by (intro Allow_calls_same_time) (simp_all add: Allow_last Allow_interval)
    then show ?thesis using res True by (simp add: n)
  qed
  then show ?thesis by (simp only: T_def)
qed

theorem C3_refill_witness:
  "tokens \<lparr>tokens = 0, max_rl = 3, interval = 1000, last_rl = 100\<rparr> = 0
   \<and> 0 < sint (1000 :: int64) \<and> 0 \<le> sint (100 :: int64)
   \<and> (0::int) \<le> 2 \<and> (0::int) \<le> 200 \<and> 200 < sint (1000 :: int64)
   \<and> sint (2300 :: int64) = sint (100 :: int64) + 2 * sint (1000 :: int64) + 200
   \<and> map fst (Allow_calls \<lparr>tokens = 0, max_rl = 3, interval = 1000, last_rl = 100\<rparr>
        [2300, 2300, 2300]) = [Inr True, Inr True, Inr False]"
  using C3_refill [of "\<lparr>tokens = 0, max_rl = 3, interval = 1000, last_rl = 100\<rparr>" 2 200 2300]
  by (simp add: numeral_eq_Suc)

text \<open>
  Claim C4 fails on the code. With capacity 9223372036854775807 (the largest \<open>int\<close>),
  refill interval 1 ns and a first call 1 ns after the construction, the addition to
  \<open>rl.tokens\<close> wraps around before the comparison with \<open>rl.max\<close>: the call is denied and
  leaves \<open>tokens = -9223372036854775808\<close>.
\<close>

theorem C4_tokens_negative_after_overflow:
  "1 \<le> sint (9223372036854775807 :: int64) \<and> 0 < sint (1 :: int64)
   \<and> sint (5 :: int64) \<le> sint (6 :: int64)
   \<and> Allow (NewRateLimiter 9223372036854775807 1 5) 6
       = (Inr False, \<lparr>tokens = - 9223372036854775808, max_rl = 9223372036854775807,
                        interval = 1, last_rl = 6\<rparr>)
   \<and> sint (tokens (snd (Allow (NewRateLimiter 9223372036854775807 1 5) 6))) < 0"
  by (simp add: Allow_def NewRateLimiter_def Sub_def quo_def Let_def)

subsection \<open>Accounting of elapsed time\<close>

lemma div_add_superadditive:
  assumes "0 < (c::int)"
  shows "a div c + b div c \<le> (a + b) div c"
proof -
  have "(a + b) div c = a div c + b div c + (a mod c + b mod c) div c"
    by (rule div_add1_eq)
  moreover have "0 \<le> (a mod c + b mod c) div c"
    using assms by (simp add: pos_imp_zdiv_nonneg_iff)
  ultimately show ?thesis by linarith
qed

lemma sint_plus64_positive_part:
  assumes "0 \<le> sint (g::int64)"
  shows "max 0 (sint (a + g)) \<le> max 0 (sint a) + sint g"
proof (cases "sint a + sint g < 2 ^ 63")
  case True
  have "- (2 ^ 63) \<le> sint a + sint g" using sint_int64_range(1) [of a] assms by linarith
  then have "sint (a + g) = sint a + sint g" using True by (rule sint_plus64_exact)
  then show ?thesis using assms by simp
next
  case False
  then have ge: "2 ^ 63 \<le> sint a + sint g" by simp
  have "(2::int) ^ 64 = 2 ^ 63 + 2 ^ 63" by simp
  then have r: "sint a + sint g < 2 ^ 64"
    using sint_int64_range(2) [of a] sint_int64_range(2) [of g] by linarith
  have "sint (a + g) \<le> sint a + sint g - 2 ^ Suc 63"
    unfolding sint_plus64 using ge by (rule signed_take_bit_int_less_eq)
  then have "sint (a + g) < 0" using r by simp
  then show ?thesis using assms by simp
qed

text \<open>One call: an admission and the tokens left are paid for by the tokens there were
  and the whole intervals of the elapsed time.\<close>

lemma Allow_pays:
  assumes "0 < sint (interval rl)" "sint (last_rl rl) \<le> sint now"
  shows "(if fst (Allow rl now) = Inr True then 1 else 0) + max 0 (sint (tokens (snd (Allow rl now))))
           \<le> max 0 (sint (tokens rl)) + (sint now - sint (last_rl rl)) div sint (interval rl)"
proof -
  let ?e = "Sub now (last_rl rl)"
  let ?g = "quo ?e (interval rl)"
  let ?s = "tokens rl + ?g"
  let ?c = "if sint (max_rl rl) < sint ?s then max_rl rl else ?s"
  have e0: "0 \<le> sint ?e" and e1: "sint ?e \<le> sint now - sint (last_rl rl)"
    using assms(2) by (rule sint_Sub_bounds)+
  have g: "sint ?g = sint ?e div sint (interval rl)" using e0 assms(1) by (rule sint_quo_nonneg)
  have g0: "0 \<le> sint ?g" using e0 assms(1) by (simp add: g pos_imp_zdiv_nonneg_iff)
  have g1: "sint ?g \<le> (sint now - sint (last_rl rl)) div sint (interval rl)"
    unfolding g using e1 assms(1) by (intro zdiv_mono1) simp_all
  have s: "max 0 (sint ?s) \<le> max 0 (sint (tokens rl)) + sint ?g"
    using g0 by (rule sint_plus64_positive_part)
  have c: "max 0 (sint ?c) \<le> max 0 (sint ?s)" by (auto simp: max_def)
  have nz: "interval rl \<noteq> 0" using assms(1) by auto
  have "(if fst (Allow rl now) = Inr True then 1 else 0) + max 0 (sint (tokens (snd (Allow rl now))))
          = max 0 (sint ?c)"
    using nz by (simp add: Allow_def Let_def sint_pred64)
  then show ?thesis using c s g1 by linarith
qed

lemma Allow_calls_pay:
  assumes "0 < sint (interval rl)" "sorted (map sint (last_rl rl # ts))"
  shows "int (length (filter (\<lambda>x. fst x = Inr True) (Allow_calls rl ts)))
           \<le> max 0 (sint (tokens rl))
              + (sint (last (last_rl rl # ts)) - sint (last_rl rl)) div sint (interval rl)"
  using assms
proof (induction ts arbitrary: rl)
  case Nil
  then show ?case by simp
next
  case (Cons t ts)
  let ?rl = "snd (Allow rl t)"
  let ?I = "sint (interval rl)"
  let ?n = "int (length (filter (\<lambda>x. fst x = Inr True) (Allow_calls ?rl ts)))"
  have le: "sint (last_rl rl) \<le> sint t" using Cons.prems(2) by simp
  have "0 < sint (interval ?rl)" using Cons.prems(1) by (simp add: Allow_interval)
  moreover have "sorted (map sint (last_rl ?rl # ts))" using Cons.prems(2) by (simp add: Allow_last)
  ultimately have "?n \<le> max 0 (sint (tokens ?rl))
      + (sint (last (last_rl ?rl # ts)) - sint (last_rl ?rl)) div sint (interval ?rl)"
    by (rule Cons.IH)
  then have ih: "?n \<le> max 0 (sint (tokens ?rl)) + (sint (last (t # ts)) - sint t) div ?I"
    by (simp add: Allow_last Allow_interval)
  have step: "(if fst (Allow rl t) = Inr True then 1 else 0) + max 0 (sint (tokens ?rl))
           \<le> max 0 (sint (tokens rl)) + (sint t - sint (last_rl rl)) div ?I"
    using Cons.prems(1) le by (rule Allow_pays)
  have "(sint t - sint (last_rl rl)) div ?I + (sint (last (t # ts)) - sint t) div ?I
          \<le> ((sint t - sint (last_rl rl)) + (sint (last (t # ts)) - sint t)) div ?I"
    using Cons.prems(1) by (rule div_add_superadditive)
  then have sup: "(sint t - sint (last_rl rl)) div ?I + (sint (last (t # ts)) - sint t) div ?I
          \<le> (sint (last (t # ts)) - sint (last_rl rl)) div ?I"
    by simp
  have "int (length (filter (\<lambda>x. fst x = Inr True) (Allow_calls rl (t # ts))))
          = (if fst (Allow rl t) = Inr True then 1 else 0) + ?n"
    by simp
  then show ?case using ih step sup by simp
qed

lemma Allow_counts_since_last:
  assumes "0 < sint (interval rl)" "sint (last_rl rl) \<le> sint now"
    and "sint now - sint (last_rl rl) < 2 ^ 63"
    and "sint (tokens rl) + (sint now - sint (last_rl rl)) div sint (interval rl) < 2 ^ 63"
  shows "fst (Allow rl now)
           = Inr (0 < min (sint (max_rl rl))
                     (sint (tokens rl) + (sint now - sint (last_rl rl)) div sint (interval rl)))"
    and "sint (tokens (snd (Allow rl now)))
           = (let T = min (sint (max_rl rl))
                       (sint (tokens rl) + (sint now - sint (last_rl rl)) div sint (interval rl))
              in if 0 < T then T - 1 else T)"
proof -
  have sub: "sint (Sub now (last_rl rl)) = sint now - sint (last_rl rl)"
    using assms(2,3) by (rule sint_Sub_exact)
  have h2: "0 \<le> sint (Sub now (last_rl rl))" using assms(2) by (simp add: sub)
  have h3: "sint (tokens rl) + sint (Sub now (last_rl rl)) div sint (interval rl) < 2 ^ 63"
    using assms(4) by (simp add: sub)
  show "fst (Allow rl now)
           = Inr (0 < min (sint (max_rl rl))
                     (sint (tokens rl) + (sint now - sint (last_rl rl)) div sint (interval rl)))"
    using Allow_refill(1) [OF assms(1) h2 h3] by (simp only: sub)
  show "sint (tokens (snd (Allow rl now)))
           = (let T = min (sint (max_rl rl))
                       (sint (tokens rl) + (sint now - sint (last_rl rl)) div sint (interval rl))
              in if 0 < T then T - 1 else T)"
    using Allow_refill(2) [OF assms(1) h2 h3] by (simp only: sub)
qed

text \<open>
  Claim C7. Every call of \<open>Allow\<close> leaves \<open>last\<close> at the clock reading it took, whatever
  it returns; so after successive calls \<open>last\<close> runs through the readings, and under a
  non-decreasing clock it never decreases. What a call adds to \<open>tokens\<close> is the number of
  whole intervals between that \<open>last\<close> and its own reading, so that (where nothing
  overflows) the call admits, and leaves tokens, by the tokens there were and those
  intervals alone. No interval is counted twice: over any run of calls under a
  non-decreasing clock, the calls admitted are at most the tokens there were at the
  start and the whole intervals between the first \<open>last\<close> and the final reading.
\<close>

theorem C7_last_refill:
  "last_rl (snd (Allow rl now)) = now
   \<and> map (\<lambda>x. last_rl (snd x)) (Allow_calls rl ts) = ts
   \<and> (sorted (map sint (last_rl rl # ts)) \<longrightarrow>
        sorted (map sint (last_rl rl # map (\<lambda>x. last_rl (snd x)) (Allow_calls rl ts))))
   \<and> (0 < sint (interval rl) \<and> sint (last_rl rl) \<le> sint now
        \<and> sint now - sint (last_rl rl) < 2 ^ 63
        \<and> sint (tokens rl) + (sint now - sint (last_rl rl)) div sint (interval rl) < 2 ^ 63 \<longrightarrow>
        fst (Allow rl now)
          = Inr (0 < min (sint (max_rl rl))
                    (sint (tokens rl) + (sint now - sint (last_rl rl)) div sint (interval rl)))
        \<and> sint (tokens (snd (Allow rl now)))
          = (let T = min (sint (max_rl rl))
                      (sint (tokens rl) + (sint now - sint (last_rl rl)) div sint (interval rl))
             in if 0 < T then T - 1 else T))
   \<and> (0 < sint (interval rl) \<and> sorted (map sint (last_rl rl # ts)) \<longrightarrow>
        int (length (filter (\<lambda>x. fst x = Inr True) (Allow_calls rl ts)))
          \<le> max 0 (sint (tokens rl))
             + (sint (last (last_rl rl # ts)) - sint (last_rl rl)) div sint (interval rl))"
proof -
  have a: "last_rl (snd (Allow rl now)) = now" by (rule Allow_last)
  have b: "map (\<lambda>x. last_rl (snd x)) (Allow_calls rl ts) = ts" by (rule Allow_calls_last)
  have c: "sorted (map sint (last_rl rl # ts)) \<longrightarrow>
        sorted (map sint (last_rl rl # map (\<lambda>x. last_rl (snd x)) (Allow_calls rl ts)))"
    by (simp only: b simp_thms)
  show ?thesis
    using a b c Allow_counts_since_last [of rl now] Allow_calls_pay [of rl ts] by blast
qed

theorem C7_last_refill_witness:
  "sorted (map sint (last_rl \<lparr>tokens = 1, max_rl = 2, interval = 10, last_rl = 5\<rparr>
                     # [5, 9, 9, 30 :: int64]))
   \<and> 0 < sint (10 :: int64) \<and> sint (5 :: int64) \<le> sint (30 :: int64)
   \<and> sint (30 :: int64) - sint (5 :: int64) < 2 ^ 63
   \<and> sint (1 :: int64) + (sint (30 :: int64) - sint (5 :: int64)) div sint (10 :: int64) < 2 ^ 63
   \<and> Allow \<lparr>tokens = 1, max_rl = 2, interval = 10, last_rl = 5\<rparr> 30
       = (Inr True, \<lparr>tokens = 1, max_rl = 2, interval = 10, last_rl = 30\<rparr>)
   \<and> Allow_calls \<lparr>tokens = 1, max_rl = 2, interval = 10, last_rl = 5\<rparr> [5, 9, 9, 30]
       = [(Inr True, \<lparr>tokens = 0, max_rl = 2, interval = 10, last_rl = 5\<rparr>),
          (Inr False, \<lparr>tokens = 0, max_rl = 2, interval = 10, last_rl = 9\<rparr>),
          (Inr False, \<lparr>tokens = 0, max_rl = 2, interval = 10, last_rl = 9\<rparr>),
          (Inr True, \<lparr>tokens = 1, max_rl = 2, interval = 10, last_rl = 30\<rparr>)]
   \<and> int (length (filter (\<lambda>x. fst x = Inr True)
               (Allow_calls \<lparr>tokens = 1, max_rl = 2, interval = 10, last_rl = 5\<rparr> [5, 9, 9, 30])))
       \<le> max 0 (sint (1 :: int64)) + (sint (30 :: int64) - sint (5 :: int64)) div sint (10 :: int64)"
  using C7_last_refill [of "\<lparr>tokens = 1, max_rl = 2, interval = 10, last_rl = 5\<rparr>" 30
      "[5, 9, 9, 30]"]
  by (simp add: Allow_def Sub_def quo_def Let_def)

section \<open>Properties of the client\<close>

lemma request_None:
  "rateLimiter c = None \<Longrightarrow> request w now c log p m ps = send w c log p m ps"
  by (simp add: request_def)

lemma send_client: "fst (snd (send w c log p m ps)) = c"
  by (simp add: send_def Let_def split: option.splits sum.splits)

lemma request_denied:
  assumes "rateLimiter c = Some rl" "fst (Allow rl now) = Inr False"
  shows "request w now c log p m ps
           = (Err RateLimitExceeded, c\<lparr>rateLimiter := Some (snd (Allow rl now))\<rparr>, log)"
  using assms by (cases "Allow rl now") (simp add: request_def)

lemma request_Client_Client:
  "request w now (Client_Client c h) log p m ps
     = apsnd (apfst (\<lambda>c'. Client_Client c' h)) (request w now c log p m ps)"
  by (simp add: request_def send_def Client_Client_def Let_def
           split: option.splits sum.splits prod.splits)

lemma Volume_Client_Client:
  "Volume w now (Client_Client c h) log
     = apsnd (apfst (\<lambda>c'. Client_Client c' h)) (Volume w now c log)"
  by (simp add: Volume_def request_Client_Client split: prod.splits result.splits sum.splits)

lemma Status_Client_Client:
  "Status w now (Client_Client c h) log
     = apsnd (apfst (\<lambda>c'. Client_Client c' h)) (Status w now c log)"
  by (simp add: Status_def request_Client_Client split: prod.splits result.splits sum.splits)

lemma Order_Client_Client:
  "Order w now (Client_Client c h) log from to address opts
     = apsnd (apfst (\<lambda>c'. Client_Client c' h)) (Order w now c log from to address opts)"
  by (simp add: Order_def request_Client_Client split: prod.splits result.splits sum.splits)

lemma GetOrder_Client_Client:
  "GetOrder w now (Client_Client c h) log id'
     = apsnd (apfst (\<lambda>c'. Client_Client c' h)) (GetOrder w now c log id')"
  by (simp add: GetOrder_def request_Client_Client split: prod.splits result.splits sum.splits)

lemma Refund_Client_Client:
  "Refund w now (Client_Client c h) log id'
     = apsnd (apfst (\<lambda>c'. Client_Client c' h)) (Refund w now c log id')"
  by (simp add: Refund_def request_Client_Client split: prod.splits result.splits sum.splits)

lemma ConfirmRefund_Client_Client:
  "ConfirmRefund w now (Client_Client c h) log id'
     = apsnd (apfst (\<lambda>c'. Client_Client c' h)) (ConfirmRefund w now c log id')"
  by (simp add: ConfirmRefund_def request_Client_Client split: prod.splits result.splits sum.splits)

lemma RevalidateAddress_Client_Client:
  "RevalidateAddress w now (Client_Client c h) log id' address
     = apsnd (apfst (\<lambda>c'. Client_Client c' h)) (RevalidateAddress w now c log id' address)"
  by (simp add: RevalidateAddress_def request_Client_Client split: prod.splits result.splits sum.splits)

lemma Remove_Client_Client:
  "Remove w now (Client_Client c h) log id'
     = apsnd (apfst (\<lambda>c'. Client_Client c' h)) (Remove w now c log id')"
  by (simp add: Remove_def request_Client_Client split: prod.splits result.splits sum.splits)

lemma request_log:
  "snd (snd (request w now c log p m ps)) = log
     \<or> (\<exists>req. snd (snd (request w now c log p m ps)) = log @ [(DefaultClient w, req)])"
  by (simp add: request_def send_def Let_def split: option.splits sum.splits prod.splits)

lemma send_rateLimiter:
  "fst (send w (c\<lparr>rateLimiter := x\<rparr>) log p m ps) = fst (send w c log p m ps)"
  by (simp add: send_def Let_def split: option.splits sum.splits)

lemma send_Err_iff:
  "fst (send w c log p m ps) = Err e \<longleftrightarrow>
     (let url = baseURL c @ ''/'' @ p;
          req = \<lparr>Method = m, URL = url,
                  Header = [(''Content-Type'', ''application/json''),
                            (''X-Requested-With'', ''XMLHttpRequest'')],
                  Query = ps\<rparr>
      in http_NewRequest w m url = Some e
         \<or> (http_NewRequest w m url = None
             \<and> (http_Do w log (DefaultClient w) req = Inl e
                 \<or> (\<exists>res. http_Do w log (DefaultClient w) req = Inr res \<and> Body res = Inl e))))"
  by (auto simp: send_def Let_def split: option.splits sum.splits)

lemma request_RateLimitExceeded_iff:
  "fst (request w now c log p m ps) = Err RateLimitExceeded
     \<longleftrightarrow> (\<exists>rl. rateLimiter c = Some rl \<and> fst (Allow rl now) = Inr False)
         \<or> ((rateLimiter c = None \<or> (\<exists>rl. rateLimiter c = Some rl \<and> fst (Allow rl now) = Inr True))
            \<and> fst (send w c log p m ps) = Err RateLimitExceeded)"
proof (cases "rateLimiter c")
  case None
  then show ?thesis by (simp add: request_None)
next
  case (Some rl)
  obtain r rl' where a: "Allow rl now = (r, rl')" by (cases "Allow rl now")
  show ?thesis
  proof (cases r)
    case (Inl p)
    then show ?thesis using Some a by (simp add: request_def)
  next
    case (Inr ok)
    then show ?thesis using Some a by (cases ok) (simp_all add: request_def send_rateLimiter)
  qed
qed

text \<open>
  Claim C5, as amended. When a limiter is configured and its \<open>Allow\<close> returns false,
  \<open>request\<close> returns \<open>RateLimitExceeded\<close>, sends nothing (the log is unchanged) and only
  the limiter has changed. With no limiter configured, \<open>request\<close> is the sending path
  itself and leaves the client as it was. Apart from a denial, \<open>request\<close> returns
  \<open>RateLimitExceeded\<close> only when the call was let through and \<open>http.NewRequest\<close>,
  \<open>http.DefaultClient.Do\<close> or \<open>io.ReadAll\<close> returned that very error, which \<open>request\<close>
  hands on; where they do not, it returns \<open>RateLimitExceeded\<close> exactly when a limiter is
  configured and denies.
\<close>

theorem C5_request_gate:
  "(\<forall>rl. rateLimiter c = Some rl \<and> fst (Allow rl now) = Inr False \<longrightarrow>
         request w now c log p m ps
           = (Err RateLimitExceeded, c\<lparr>rateLimiter := Some (snd (Allow rl now))\<rparr>, log))
   \<and> (rateLimiter c = None \<longrightarrow>
         request w now c log p m ps = send w c log p m ps
         \<and> fst (snd (request w now c log p m ps)) = c)
   \<and> (fst (request w now c log p m ps) = Err RateLimitExceeded
        \<longleftrightarrow> (\<exists>rl. rateLimiter c = Some rl \<and> fst (Allow rl now) = Inr False)
            \<or> ((rateLimiter c = None
                 \<or> (\<exists>rl. rateLimiter c = Some rl \<and> fst (Allow rl now) = Inr True))
               \<and> fst (send w c log p m ps) = Err RateLimitExceeded))
   \<and> (fst (send w c log p m ps) = Err RateLimitExceeded \<longleftrightarrow>
        (let url = baseURL c @ ''/'' @ p;
             req = \<lparr>Method = m, URL = url,
                     Header = [(''Content-Type'', ''application/json''),
                               (''X-Requested-With'', ''XMLHttpRequest'')],
                     Query = ps\<rparr>
         in http_NewRequest w m url = Some RateLimitExceeded
            \<or> (http_NewRequest w m url = None
                \<and> (http_Do w log (DefaultClient w) req = Inl RateLimitExceeded
                    \<or> (\<exists>res. http_Do w log (DefaultClient w) req = Inr res
                              \<and> Body res = Inl RateLimitExceeded)))))
   \<and> (fst (send w c log p m ps) \<noteq> Err RateLimitExceeded \<longrightarrow>
        (fst (request w now c log p m ps) = Err RateLimitExceeded
           \<longleftrightarrow> (\<exists>rl. rateLimiter c = Some rl \<and> fst (Allow rl now) = Inr False)))"
proof -
  have a: "\<forall>rl. rateLimiter c = Some rl \<and> fst (Allow rl now) = Inr False \<longrightarrow>
         request w now c log p m ps
           = (Err RateLimitExceeded, c\<lparr>rateLimiter := Some (snd (Allow rl now))\<rparr>, log)"
    by (simp add: request_denied)
  have b: "rateLimiter c = None \<longrightarrow>
         request w now c log p m ps = send w c log p m ps
         \<and> fst (snd (request w now c log p m ps)) = c"
    by (simp add: request_None send_client)
  note c = request_RateLimitExceeded_iff [of w now c log p m ps]
  note d = send_Err_iff [of w c log p m ps RateLimitExceeded]
  have e: "fst (send w c log p m ps) \<noteq> Err RateLimitExceeded \<longrightarrow>
        (fst (request w now c log p m ps) = Err RateLimitExceeded
           \<longleftrightarrow> (\<exists>rl. rateLimiter c = Some rl \<and> fst (Allow rl now) = Inr False))"
    using c by blast
  show ?thesis using a b c d e by (intro conjI)
qed

theorem C5_request_gate_witness:
  "rateLimiter exhausted_client
     = Some \<lparr>tokens = 0, max_rl = 1, interval = 1000000000, last_rl = 5\<rparr>
   \<and> fst (Allow \<lparr>tokens = 0, max_rl = 1, interval = 1000000000, last_rl = 5\<rparr> 5) = Inr False
   \<and> request answer_200 5 exhausted_client [] ''volume'' ''GET'' []
       = (Err RateLimitExceeded, exhausted_client, [])
   \<and> rateLimiter (New ''k'' 1) = None
   \<and> fst (send answer_200 (New ''k'' 1) [] ''volume'' ''GET'' []) \<noteq> Err RateLimitExceeded
   \<and> request answer_200 5 (New ''k'' 1) [] ''volume'' ''GET'' []
       = (Ok (200, ''{}''), New ''k'' 1,
          [(0, \<lparr>Method = ''GET'', URL = ''https://exch.cx/api/volume'',
                Header = [(''Content-Type'', ''application/json''),
                          (''X-Requested-With'', ''XMLHttpRequest'')],
                Query = []\<rparr>)])"
  using C5_request_gate [of exhausted_client 5 answer_200 "[]" "''volume''" "''GET''" "[]"]
    C5_request_gate [of "New ''k'' 1" 5 answer_200 "[]" "''volume''" "''GET''" "[]"]
  by (simp add: exhausted_client_def New_def Allow_def Sub_def quo_def Let_def send_def
        answer_200_def)

text \<open>
  Claim C5, as stated, fails: with no limiter configured, in a world where reading the
  response body fails with the error value \<open>RateLimitExceeded\<close>, \<open>request\<close> sends its
  request and returns \<open>RateLimitExceeded\<close>.
\<close>

theorem C5_counterexample:
  "rateLimiter (New ''k'' 1) = None
   \<and> request sentinel_body 5 (New ''k'' 1) [] ''volume'' ''GET'' []
       = (Err RateLimitExceeded, New ''k'' 1,
          [(0, \<lparr>Method = ''GET'', URL = ''https://exch.cx/api/volume'',
                Header = [(''Content-Type'', ''application/json''),
                          (''X-Requested-With'', ''XMLHttpRequest'')],
                Query = []\<rparr>)])"
  by (simp add: request_def send_def New_def sentinel_body_def Let_def)

text \<open>
  Claim C6 fails on the code. A client with capacity 1 has spent its token on a first
  call; a second call at the same clock reading is denied. \<open>Volume\<close> and \<open>Status\<close> then
  return \<open>RateLimitExceeded\<close> itself, but \<open>Order\<close>, \<open>GetOrder\<close>, \<open>Refund\<close>,
  \<open>ConfirmRefund\<close>, \<open>RevalidateAddress\<close> and \<open>Remove\<close> return a new error made by
  \<open>fmt.Errorf\<close> with \<open>%v\<close>, which is not \<open>RateLimitExceeded\<close>. None of them sends a
  request.
\<close>

theorem C6_denied_error_is_wrapped:
  "fst (snd (Volume answer_200 5 (Client_RateLimiter (New ''k'' 1) 1 1000000000 5) []))
     = exhausted_client
   \<and> Volume w 5 exhausted_client log = (Err RateLimitExceeded, exhausted_client, log)
   \<and> Status w 5 exhausted_client log = (Err RateLimitExceeded, exhausted_client, log)
   \<and> Order w 5 exhausted_client log ''BTC'' ''XMR'' ''addr'' None
       = (Err (Errorf ''request error: %v'' [AErr RateLimitExceeded]), exhausted_client, log)
   \<and> GetOrder w 5 exhausted_client log ''abc''
       = (Err (Errorf ''request error: %v'' [AErr RateLimitExceeded]), exhausted_client, log)
   \<and> Refund w 5 exhausted_client log ''abc''
       = (Err (Errorf ''request error: %v'' [AErr RateLimitExceeded]), exhausted_client, log)
   \<and> ConfirmRefund w 5 exhausted_client log ''abc''
       = (Err (Errorf ''request error: %v'' [AErr RateLimitExceeded]), exhausted_client, log)
   \<and> RevalidateAddress w 5 exhausted_client log ''abc'' ''addr''
       = (Err (Errorf ''error making request: %v'' [AErr RateLimitExceeded]),
          exhausted_client, log)
   \<and> Remove w 5 exhausted_client log ''abc''
       = (Err (Errorf ''error making request: %v'' [AErr RateLimitExceeded]),
          exhausted_client, log)
   \<and> Errorf ''request error: %v'' [AErr RateLimitExceeded] \<noteq> RateLimitExceeded
   \<and> Errorf ''error making request: %v'' [AErr RateLimitExceeded] \<noteq> RateLimitExceeded"
  by (simp add: Volume_def Status_def Order_def GetOrder_def Refund_def ConfirmRefund_def
        RevalidateAddress_def Remove_def request_def send_def exhausted_client_def
        Client_RateLimiter_def NewRateLimiter_def New_def answer_200_def
        Allow_def Sub_def quo_def Let_def)

text \<open>
  Claim C9. What \<open>request\<close> and every API method return, and what they send, does not
  depend on the \<open>http.Client\<close> installed with the setter \<open>Client\<close>: a client that differs
  only in that field gives the same result and the same log, and ends in the same state
  but for that field. Whatever \<open>request\<close> sends goes through \<open>http.DefaultClient\<close>.
\<close>

theorem C9_http_Client_ignored:
  "request w now (Client_Client c h) log p m ps
     = apsnd (apfst (\<lambda>c'. Client_Client c' h)) (request w now c log p m ps)
   \<and> Volume w now (Client_Client c h) log
     = apsnd (apfst (\<lambda>c'. Client_Client c' h)) (Volume w now c log)
   \<and> Status w now (Client_Client c h) log
     = apsnd (apfst (\<lambda>c'. Client_Client c' h)) (Status w now c log)
   \<and> Order w now (Client_Client c h) log from to address opts
     = apsnd (apfst (\<lambda>c'. Client_Client c' h)) (Order w now c log from to address opts)
   \<and> GetOrder w now (Client_Client c h) log id'
     = apsnd (apfst (\<lambda>c'. Client_Client c' h)) (GetOrder w now c log id')
   \<and> Refund w now (Client_Client c h) log id'
     = apsnd (apfst (\<lambda>c'. Client_Client c' h)) (Refund w now c log id')
   \<and> ConfirmRefund w now (Client_Client c h) log id'
     = apsnd (apfst (\<lambda>c'. Client_Client c' h)) (ConfirmRefund w now c log id')
   \<and> RevalidateAddress w now (Client_Client c h) log id' address
     = apsnd (apfst (\<lambda>c'. Client_Client c' h)) (RevalidateAddress w now c log id' address)
   \<and> Remove w now (Client_Client c h) log id'
     = apsnd (apfst (\<lambda>c'. Client_Client c' h)) (Remove w now c log id')
   \<and> (snd (snd (request w now c log p m ps)) = log
        \<or> (\<exists>req. snd (snd (request w now c log p m ps)) = log @ [(DefaultClient w, req)]))"
  by (simp only: request_Client_Client Volume_Client_Client Status_Client_Client
        Order_Client_Client GetOrder_Client_Client Refund_Client_Client
        ConfirmRefund_Client_Client RevalidateAddress_Client_Client Remove_Client_Client
        request_log simp_thms)

theorem C9_http_Client_ignored_witness:
  "request answer_200 5 (Client_Client (New ''k'' 1) 2) [] ''volume'' ''GET'' []
     = (Ok (200, ''{}''), Client_Client (New ''k'' 1) 2,
        [(DefaultClient answer_200,
          \<lparr>Method = ''GET'', URL = ''https://exch.cx/api/volume'',
            Header = [(''Content-Type'', ''application/json''),
                      (''X-Requested-With'', ''XMLHttpRequest'')],
            Query = []\<rparr>)])
   \<and> request answer_200 5 (New ''k'' 1) [] ''volume'' ''GET'' []
     = (Ok (200, ''{}''), New ''k'' 1,
        [(DefaultClient answer_200,
          \<lparr>Method = ''GET'', URL = ''https://exch.cx/api/volume'',
            Header = [(''Content-Type'', ''application/json''),
                      (''X-Requested-With'', ''XMLHttpRequest'')],
            Query = []\<rparr>)])"
  using C9_http_Client_ignored [of answer_200 5 "New ''k'' 1" 2 "[]" "''volume''" "''GET''" "[]"]
  by (simp add: request_def send_def New_def Client_Client_def answer_200_def Let_def)

text \<open>
  Claim C10. \<open>Order\<close> with an empty \<open>from\<close>, \<open>to\<close> or \<open>address\<close>, \<open>GetOrder\<close>, \<open>Refund\<close>,
  \<open>ConfirmRefund\<close> and \<open>Remove\<close> with an empty \<open>id\<close>, and \<open>RevalidateAddress\<close> with an
  empty \<open>id\<close> or \<open>address\<close> return their error at once: the client, and with it the
  limiter's \<open>tokens\<close> and \<open>last\<close>, and the log of requests sent are unchanged.
\<close>

theorem C10_empty_argument:
  "(from = '''' \<or> to = '''' \<or> address = '''' \<longrightarrow>
      Order w now c log from to address opts
        = (Err (Errorf ''from, to, and address are required'' []), c, log))
   \<and> GetOrder w now c log '''' = (Err (Errorf ''id is required'' []), c, log)
   \<and> Refund w now c log '''' = (Err (Errorf ''id is required'' []), c, log)
   \<and> ConfirmRefund w now c log '''' = (Err (Errorf ''id is required'' []), c, log)
   \<and> Remove w now c log '''' = (Err (Errorf ''order id is empty'' []), c, log)
   \<and> (id' = '''' \<or> address = '''' \<longrightarrow>
        RevalidateAddress w now c log id' address
          = (Err (Errorf ''id and address are required'' []), c, log))"
  by (simp add: Order_def GetOrder_def Refund_def ConfirmRefund_def Remove_def
        RevalidateAddress_def)

theorem C10_empty_argument_witness:
  "Order answer_200 9 (Client_RateLimiter (New ''k'' 1) 3 1000 5) [] ''BTC'' ''XMR'' '''' None
     = (Err (Errorf ''from, to, and address are required'' []),
        Client_RateLimiter (New ''k'' 1) 3 1000 5, [])
   \<and> RevalidateAddress answer_200 9 (Client_RateLimiter (New ''k'' 1) 3 1000 5) [] '''' ''addr''
     = (Err (Errorf ''id and address are required'' []),
        Client_RateLimiter (New ''k'' 1) 3 1000 5, [])
   \<and> rateLimiter (Client_RateLimiter (New ''k'' 1) 3 1000 5)
     = Some \<lparr>tokens = 3, max_rl = 3, interval = 1000, last_rl = 5\<rparr>"
  using C10_empty_argument [of "''BTC''" "''XMR''" "''''" answer_200 9
      "Client_RateLimiter (New ''k'' 1) 3 1000 5" "[]" None "''''" ]
    C10_empty_argument [of "''BTC''" "''XMR''" "''addr''" answer_200 9
      "Client_RateLimiter (New ''k'' 1) 3 1000 5" "[]" None "''''" ]
  by (simp add: Client_RateLimiter_def NewRateLimiter_def New_def)

end
